theory Spec2Isabelle
  imports Main
begin

section \<open>JavaScript values\<close>

text \<open>
  The values that travel through callbacks and request bodies.  A plain object is kept by
  value as its list of properties in insertion order; \<open>JRef\<close> is a reference to a
  ServiceObject instance in the store, where identity matters.  Numbers are integers and
  arrays do not occur in the payloads modelled here.
\<close>

type_synonym ref = nat

datatype jsval =
    JUndefined
  | JNull
  | JBool bool
  | JNum int
  | JStr string
  | JObj "(string \<times> jsval) list"
  | JRef ref

datatype js_error = TypeError

text \<open>JavaScript truthiness, as tested by \<open>if (err)\<close>, \<open>!err\<close>, \<open>a && b\<close>, \<open>a || b\<close>.\<close>

fun truthy :: "jsval \<Rightarrow> bool" where
  "truthy JUndefined = False"
| "truthy JNull = False"
| "truthy (JBool b) = b"
| "truthy (JNum n) = (n \<noteq> 0)"
| "truthy (JStr s) = (s \<noteq> [])"
| "truthy (JObj fs) = True"
| "truthy (JRef r) = True"

text \<open>\<open>obj[k] = v\<close> on a plain object: an existing property keeps its place.\<close>

fun set_prop :: "string \<Rightarrow> 'v \<Rightarrow> (string \<times> 'v) list \<Rightarrow> (string \<times> 'v) list" where
  "set_prop k v [] = [(k, v)]"
| "set_prop k v ((k', v') # fs) = (if k = k' then (k, v) # fs else (k', v') # set_prop k v fs)"

text \<open>\<open>delete obj[k]\<close> on a plain object.\<close>

definition delete_prop :: "string \<Rightarrow> (string \<times> 'v) list \<Rightarrow> (string \<times> 'v) list" where
  "delete_prop k fs = filter (\<lambda>kv. fst kv \<noteq> k) fs"

text \<open>
  \<open>v.name\<close> read on a value that is not a store reference: a property of a plain object,
  \<open>undefined\<close> when it is missing or when \<open>v\<close> is a primitive; reading from
  \<open>undefined\<close> or \<open>null\<close> throws.
\<close>

fun get_prop :: "jsval \<Rightarrow> string \<Rightarrow> js_error + jsval" where
  "get_prop JUndefined k = Inl TypeError"
| "get_prop JNull k = Inl TypeError"
| "get_prop (JObj fs) k = Inr (case map_of fs k of Some v \<Rightarrow> v | None \<Rightarrow> JUndefined)"
| "get_prop v k = Inr JUndefined"

section \<open>Strings and URI segments\<close>

definition is_slash :: "char \<Rightarrow> bool" where
  "is_slash c = (c = CHR ''/'')"

text \<open>
  \<open>uriComponent.replace(/^\/*|\/*$/g, '')\<close>.  The global replace scans left to right.  At
  index 0 the first alternative \<open>^\/*\<close> matches the whole run of leading slashes, which is
  removed.  At every later index only the second alternative \<open>\/*$\<close> can match, and it
  does so exactly when all that remains is slashes (possibly nothing): the rest is removed.
  Otherwise the character is copied and the scan moves on.  \<open>replace_tail\<close> is the scan
  after index 0.
\<close>

fun replace_tail :: "string \<Rightarrow> string" where
  "replace_tail [] = []"
| "replace_tail (c # cs) = (if list_all is_slash (c # cs) then [] else c # replace_tail cs)"

definition trimSlashes :: "string \<Rightarrow> string" where
  "trimSlashes uriComponent = replace_tail (dropWhile is_slash uriComponent)"

text \<open>What the spec calls trimming leading and trailing path separators.\<close>

definition strip_slashes :: "string \<Rightarrow> string" where
  "strip_slashes s = rev (dropWhile is_slash (rev (dropWhile is_slash s)))"

text \<open>\<open>Array.prototype.join\<close> on strings.\<close>

fun join :: "string \<Rightarrow> string list \<Rightarrow> string" where
  "join sep [] = []"
| "join sep [x] = x"
| "join sep (x # y # ys) = x @ sep @ join sep (y # ys)"

text \<open>
  \<open>.replace(/\/:/g, ':')\<close>: every match of \<open>/:\<close>, found left to right, becomes \<open>:\<close>; the
  scan resumes after the match.
\<close>

fun replace_slash_colon :: "string \<Rightarrow> string" where
  "replace_slash_colon (a # b # s) =
     (if a = CHR ''/'' \<and> b = CHR '':'' then CHR '':'' # replace_slash_colon s
      else a # replace_slash_colon (b # s))"
| "replace_slash_colon s = s"

text \<open>
  The spec's reading of the same step: a \<open>/\<close> is dropped exactly when the next character
  of the joined string is \<open>:\<close>.
\<close>

fun drop_slash_before_colon :: "string \<Rightarrow> string" where
  "drop_slash_before_colon [] = []"
| "drop_slash_before_colon (a # s) =
     (if a = CHR ''/'' \<and> (case s of [] \<Rightarrow> False | b # _ \<Rightarrow> b = CHR '':'')
      then drop_slash_before_colon s
      else a # drop_slash_before_colon s)"

text \<open>
  \<open>String.prototype.trim\<close>, for the characters below U+0100 that JavaScript counts as
  white space or line terminators: TAB, LF, VT, FF, CR, SP and NBSP.
\<close>

definition is_space :: "char \<Rightarrow> bool" where
  "is_space c = (of_char c \<in> {9, 10, 11, 12, 13, 32, 160 :: nat})"

definition trim :: "string \<Rightarrow> string" where
  "trim s = rev (dropWhile is_space (rev (dropWhile is_space s)))"

text \<open>A segment is blank when it has no character other than white space.\<close>

definition blank :: "string \<Rightarrow> bool" where
  "blank s = list_all is_space s"

section \<open>Request options and interceptors\<close>

text \<open>
  \<open>arrify(x)\<close>: nothing for \<open>undefined\<close> and \<open>null\<close>, the array itself for an array, a
  one-element array for any other value.
\<close>

datatype 'a maybe_array = Absent | Single 'a | Array "'a list"

fun arrify :: "'a maybe_array \<Rightarrow> 'a list" where
  "arrify Absent = []"
| "arrify (Single x) = [x]"
| "arrify (Array xs) = xs"

text \<open>
  Interceptor objects live in a store and arrays hold references to them, as in
  JavaScript; this also lets \<open>reqOpts.interceptors_\<close> hold interceptors whose \<open>request\<close>
  takes a \<open>reqOpts\<close>.  The field \<open>interceptors_\<close> of the request options is written
  \<open>scopedInterceptors\<close>, the name the specification gives it, and \<open>options.interceptors_\<close>
  of the Service constructor is written \<open>globalInterceptors\<close>.
\<close>

type_synonym iref = nat

text \<open>The field \<open>method\<close> of the request options is written \<open>http_method\<close>.\<close>

record reqOpts =
  uri :: string
  http_method :: "string option"
  json :: jsval
  headers :: "(string \<times> string) list"
  scopedInterceptors :: "iref maybe_array"

text \<open>An interceptor object; \<open>request\<close> is \<open>None\<close> when the property is missing.\<close>

record interceptor =
  request :: "(reqOpts \<Rightarrow> reqOpts) option"

type_synonym interceptor_store = "iref \<Rightarrow> interceptor"

section \<open>Service (src/lib/common/service.js)\<close>

record service_config =
  baseUrl :: string
  projectIdRequired :: jsval

record service_options =
  globalInterceptors :: "iref maybe_array"
  projectId :: "string option"

record 'r service =
  makeAuthenticatedRequest :: "reqOpts \<Rightarrow> 'r"
  baseUrl :: string
  globalInterceptors :: "iref list"
  interceptors :: "iref list"
  projectId :: "string option"
  projectIdRequired :: bool

text \<open>
  The constructor.  The authenticated transport built by
  \<open>util.makeAuthenticatedRequestFactory\<close> is passed in; its result stands for the
  arguments it eventually gives the callback.
\<close>

definition Service :: "(reqOpts \<Rightarrow> 'r) \<Rightarrow> service_config \<Rightarrow> service_options \<Rightarrow> 'r service" where
  "Service transport config options =
     \<lparr> makeAuthenticatedRequest = transport,
       service.baseUrl = service_config.baseUrl config,
       service.globalInterceptors = arrify (service_options.globalInterceptors options),
       service.interceptors = [],
       service.projectId = service_options.projectId options,
       service.projectIdRequired = (service_config.projectIdRequired config \<noteq> JBool False) \<rparr>"

text \<open>
  Lines 69-78: the segments to join.  \<open>projectId\<close> may be missing; \<open>.replace\<close> on
  \<open>undefined\<close> throws a TypeError in the \<open>map\<close> below.
\<close>

definition uriComponents :: "'r service \<Rightarrow> reqOpts \<Rightarrow> string option list" where
  "uriComponents this r =
     [Some (service.baseUrl this)]
     @ (if service.projectIdRequired this then [Some ''projects'', service.projectId this] else [])
     @ [Some (uri r)]"

fun map_trimSlashes :: "string option list \<Rightarrow> js_error + string list" where
  "map_trimSlashes [] = Inr []"
| "map_trimSlashes (None # cs) = Inl TypeError"
| "map_trimSlashes (Some c # cs) =
     (case map_trimSlashes cs of Inl e \<Rightarrow> Inl e | Inr ts \<Rightarrow> Inr (trimSlashes c # ts))"

text \<open>Lines 80-89: the rewritten \<open>reqOpts.uri\<close>.\<close>

definition Service_uri :: "'r service \<Rightarrow> reqOpts \<Rightarrow> js_error + string" where
  "Service_uri this r =
     (case map_trimSlashes (uriComponents this r) of
        Inl e \<Rightarrow> Inl e
      | Inr ts \<Rightarrow> Inr (replace_slash_colon (join ''/'' ts)))"

text \<open>Lines 92-94.\<close>

definition combinedInterceptors :: "'r service \<Rightarrow> reqOpts \<Rightarrow> iref list" where
  "combinedInterceptors this r =
     service.globalInterceptors this @ service.interceptors this @ arrify (scopedInterceptors r)"

text \<open>
  Lines 98-100: \<open>while ((interceptor = combinedInterceptors.shift()) && interceptor.request)\<close>.
  The loop ends when the array is exhausted, and also at the first interceptor whose
  \<open>request\<close> is missing.
\<close>

fun run_interceptors :: "interceptor_store \<Rightarrow> iref list \<Rightarrow> reqOpts \<Rightarrow> reqOpts" where
  "run_interceptors st [] r = r"
| "run_interceptors st (i # rest) r =
     (case request (st i) of
        None \<Rightarrow> r
      | Some f \<Rightarrow> run_interceptors st rest (f r))"

text \<open>
  Everything \<open>Service.prototype.request\<close> does before line 104: the value it passes to
  \<open>makeAuthenticatedRequest\<close>, or the exception that ends the call.
\<close>

definition Service_reqOpts :: "'r service \<Rightarrow> interceptor_store \<Rightarrow> reqOpts \<Rightarrow> js_error + reqOpts" where
  "Service_reqOpts this st r =
     (case Service_uri this r of
        Inl e \<Rightarrow> Inl e
      | Inr u \<Rightarrow>
          let r1 = r\<lparr>uri := u\<rparr>;
              r2 = run_interceptors st (combinedInterceptors this r1) r1
          in Inr (r2\<lparr>scopedInterceptors := Absent\<rparr>))"

definition Service_request :: "'r service \<Rightarrow> interceptor_store \<Rightarrow> reqOpts \<Rightarrow> js_error + 'r" where
  "Service_request this st r =
     (case Service_reqOpts this st r of
        Inl e \<Rightarrow> Inl e
      | Inr r' \<Rightarrow> Inr (makeAuthenticatedRequest this r'))"

text \<open>
  The URI as the spec words it: the segments, each stripped of leading and trailing
  slashes, joined with \<open>/\<close>, and every \<open>/\<close> that stands before a \<open>:\<close> dropped.
\<close>

definition spec_Service_uri :: "bool \<Rightarrow> string \<Rightarrow> string \<Rightarrow> string \<Rightarrow> string" where
  "spec_Service_uri required base project u =
     drop_slash_before_colon
       (join ''/''
          (map strip_slashes (if required then [base, ''projects'', project, u] else [base, u])))"

section \<open>ServiceObject (src/lib/common/service-object.js)\<close>

text \<open>
  Default request options registered for one shared method, \<open>config.methods[name].reqOpts\<close>:
  each property may be missing (\<open>JUndefined\<close> for \<open>json\<close>).
\<close>

record reqOpts_defaults =
  uri_default :: "string option"
  method_default :: "string option"
  json_default :: jsval
  headers_default :: "(string \<times> string) list option"

text \<open>An entry of the \<open>methods\<close> map: a boolean flag or \<open>{reqOpts: ...}\<close>.\<close>

datatype method_entry = Flag bool | MethodConfig "reqOpts_defaults option"

fun entry_truthy :: "method_entry option \<Rightarrow> bool" where
  "entry_truthy None = False"
| "entry_truthy (Some (Flag b)) = b"
| "entry_truthy (Some (MethodConfig d)) = True"

text \<open>\<open>(this.methods[name] || {}).reqOpts\<close>.\<close>

fun methodConfig_reqOpts :: "method_entry option \<Rightarrow> reqOpts_defaults option" where
  "methodConfig_reqOpts (Some (MethodConfig d)) = d"
| "methodConfig_reqOpts e = None"

text \<open>
  \<open>extend(target, options)\<close> of the \<open>extend\<close> package on request options: every
  property of \<open>options\<close> that is not \<open>undefined\<close> replaces the target's.
\<close>

fun js_extend :: "reqOpts \<Rightarrow> reqOpts_defaults option \<Rightarrow> reqOpts" where
  "js_extend target None = target"
| "js_extend target (Some d) =
     target\<lparr> uri := (case uri_default d of Some u \<Rightarrow> u | None \<Rightarrow> uri target),
             http_method := (case method_default d of Some m \<Rightarrow> Some m | None \<Rightarrow> http_method target),
             json := (if json_default d = JUndefined then json target else json_default d),
             headers := (case headers_default d of Some hs \<Rightarrow> hs | None \<Rightarrow> headers target) \<rparr>"

text \<open>
  \<open>extend(true, target, options)\<close>: as above, but a property of \<open>options\<close> that is a plain
  object is merged, property by property, into the target's value when that is a plain
  object too, and into \<open>{}\<close> otherwise.
\<close>

function deep_fields :: "(string \<times> jsval) list \<Rightarrow> (string \<times> jsval) list \<Rightarrow> (string \<times> jsval) list" where
  "deep_fields target [] = target"
| "deep_fields target ((name, copy) # rest) =
     deep_fields
       (case copy of
          JObj cf \<Rightarrow>
            set_prop name
              (JObj (deep_fields (case map_of target name of Some (JObj sf) \<Rightarrow> sf | _ \<Rightarrow> []) cf))
              target
        | JUndefined \<Rightarrow> target
        | _ \<Rightarrow> set_prop name copy target)
       rest"
  by pat_completeness auto
termination
  by (relation "measure (\<lambda>(target, options). size_list (size_prod (\<lambda>_. 0) size) options)") auto

fun js_extend_deep :: "reqOpts \<Rightarrow> reqOpts_defaults option \<Rightarrow> reqOpts" where
  "js_extend_deep target None = target"
| "js_extend_deep target (Some d) =
     target\<lparr> uri := (case uri_default d of Some u \<Rightarrow> u | None \<Rightarrow> uri target),
             http_method := (case method_default d of Some m \<Rightarrow> Some m | None \<Rightarrow> http_method target),
             json := (case json_default d of
                        JUndefined \<Rightarrow> json target
                      | JObj cf \<Rightarrow> JObj (deep_fields (case json target of JObj sf \<Rightarrow> sf | _ \<Rightarrow> []) cf)
                      | copy \<Rightarrow> copy),
             headers := (case headers_default d of
                           Some hs \<Rightarrow> fold (\<lambda>kv t. set_prop (fst kv) (snd kv) t) hs (headers target)
                         | None \<Rightarrow> headers target) \<rparr>"

text \<open>
  What \<open>self[methodName]\<close> is on an instance: the function of \<open>ServiceObject.prototype\<close>,
  a function the subclass put in its place, or \<open>undefined\<close>.
\<close>

datatype method_slot = Inherited | Redefined | Removed

text \<open>
  An instance.  \<open>parent\<close> is \<open>this.parent.request\<close>, whose result stands for what the
  request callback is given; \<open>createMethod\<close> returns the arguments it gives its callback;
  \<open>id_str\<close> is the field \<open>id\<close>; \<open>own\<close> is the instance's method table.
\<close>

record 'r service_object =
  metadata :: jsval
  baseUrl :: string
  parent :: "reqOpts \<Rightarrow> 'r"
  id_str :: string
  createMethod :: "string \<Rightarrow> jsval option \<Rightarrow> jsval list"
  methods :: "string \<Rightarrow> method_entry option"
  interceptors :: "iref list"
  own :: "string \<Rightarrow> method_slot"

record 'r service_object_config =
  baseUrl :: string
  createMethod :: "string \<Rightarrow> jsval option \<Rightarrow> jsval list"
  id_str :: string
  methods :: "(string \<Rightarrow> method_entry option) option"
  parent :: "reqOpts \<Rightarrow> 'r"

text \<open>\<open>Object.keys(ServiceObject.prototype)\<close>, in the order the methods are assigned.\<close>

definition allMethodNames :: "string list" where
  "allMethodNames =
     [''create'', ''delete'', ''exists'', ''get'', ''getMetadata'', ''setMetadata'', ''request'']"

text \<open>
  The constructor (lines 59-90).  \<open>self\<close> is the method table of the new object as its
  prototype chain gives it, before the constructor body runs.
\<close>

definition ServiceObject :: "'r service_object_config \<Rightarrow> (string \<Rightarrow> method_slot) \<Rightarrow> 'r service_object" where
  "ServiceObject config self =
     \<lparr> metadata = JObj [],
       service_object.baseUrl = service_object_config.baseUrl config,
       service_object.parent = service_object_config.parent config,
       service_object.id_str = service_object_config.id_str config,
       service_object.createMethod = service_object_config.createMethod config,
       service_object.methods =
         (case service_object_config.methods config of Some m \<Rightarrow> m | None \<Rightarrow> (\<lambda>name. None)),
       service_object.interceptors = [],
       own =
         (case service_object_config.methods config of
            None \<Rightarrow> self
          | Some m \<Rightarrow>
              fold (\<lambda>methodName tbl. tbl(methodName := Removed))
                (filter (\<lambda>methodName.
                     methodName \<noteq> ''request'' \<and>
                     self methodName = Inherited \<and>
                     \<not> entry_truthy (m methodName))
                   allMethodNames)
                self) \<rparr>"

text \<open>
  \<open>ServiceObject.prototype.request\<close> (lines 301-319).  \<open>exec('trim')\<close> of the \<open>methmeth\<close>
  package calls \<open>trim()\<close> on the segment; the filter keeps a segment when the trimmed
  string is not empty.
\<close>

definition ServiceObject_uri :: "'r service_object \<Rightarrow> reqOpts \<Rightarrow> string" where
  "ServiceObject_uri this r =
     join ''/''
       (map trimSlashes
          (filter (\<lambda>uriComponent. trim uriComponent \<noteq> [])
             [service_object.baseUrl this, service_object.id_str this, uri r]))"

definition ServiceObject_request :: "'r service_object \<Rightarrow> reqOpts \<Rightarrow> 'r" where
  "ServiceObject_request this r =
     service_object.parent this
       (r\<lparr> uri := ServiceObject_uri this r,
           scopedInterceptors := Array (service_object.interceptors this) \<rparr>)"

text \<open>
  The store of ServiceObject instances.  A request either throws or gives its callback
  \<open>(err, resp)\<close>; a shared method either throws or calls its callback once, with the list
  of arguments returned here, and leaves the store as returned.
\<close>

type_synonym heap = "ref \<Rightarrow> (js_error + jsval \<times> jsval) service_object"

type_synonym outcome = "js_error + heap \<times> jsval list"

text \<open>The \<open>i\<close>-th argument a function receives: \<open>undefined\<close> when fewer were passed.\<close>

definition arg :: "nat \<Rightarrow> jsval list \<Rightarrow> jsval" where
  "arg i args = (if i < length args then args ! i else JUndefined)"

text \<open>\<open>instance.metadata\<close>, where the instance may be a ServiceObject of the store.\<close>

fun metadata_of :: "heap \<Rightarrow> jsval \<Rightarrow> js_error + jsval" where
  "metadata_of h (JRef r) = Inr (metadata (h r))"
| "metadata_of h v = get_prop v ''metadata''"

text \<open>\<open>args[1] = self\<close> on the copied argument list.\<close>

fun set_arg1 :: "jsval \<Rightarrow> jsval list \<Rightarrow> jsval list" where
  "set_arg1 v [] = [JUndefined, v]"
| "set_arg1 v [a] = [a, v]"
| "set_arg1 v (a # b # rest) = a # v # rest"

text \<open>\<open>is.object(options)\<close>: a plain object or an instance, not a primitive.\<close>

fun is_object :: "jsval \<Rightarrow> bool" where
  "is_object (JObj fs) = True"
| "is_object (JRef r) = True"
| "is_object v = False"

text \<open>
  \<open>ServiceObject.prototype.create\<close> (lines 101-129).  \<open>options\<close> is \<open>None\<close> when the first
  argument is the callback.  Lines 105-111: the options are passed on to \<open>createMethod\<close>
  only when they are an object.  \<open>onCreate\<close> receives the arguments \<open>createMethod\<close> gives
  its callback and reads \<open>err\<close> and \<open>instance\<close> from the first two.
\<close>

definition options_argument :: "jsval option \<Rightarrow> jsval option" where
  "options_argument options =
     (case options of
        Some opts \<Rightarrow> (if is_object opts then Some opts else None)
      | None \<Rightarrow> None)"

definition create :: "heap \<Rightarrow> ref \<Rightarrow> jsval option \<Rightarrow> outcome" where
  "create h self options =
     (let this = h self;
          args = service_object.createMethod this (service_object.id_str this)
                   (options_argument options);
          err = arg 0 args;
          instance = arg 1 args
      in if \<not> truthy err then
           (case metadata_of h instance of
              Inl e \<Rightarrow> Inl e
            | Inr m \<Rightarrow> Inr (h(self := this\<lparr>metadata := m\<rparr>), set_arg1 (JRef self) args))
         else Inr (h, args))"

text \<open>\<open>ServiceObject.prototype.getMetadata\<close> (lines 233-254).\<close>

definition getMetadata_reqOpts :: "'r service_object \<Rightarrow> reqOpts" where
  "getMetadata_reqOpts this =
     js_extend \<lparr> uri = '''', http_method = None, json = JUndefined, headers = [],
                 scopedInterceptors = Absent \<rparr>
       (methodConfig_reqOpts (service_object.methods this ''getMetadata''))"

definition getMetadata :: "heap \<Rightarrow> ref \<Rightarrow> outcome" where
  "getMetadata h self =
     (let this = h self;
          r = getMetadata_reqOpts this
      in case ServiceObject_request this r of
           Inl e \<Rightarrow> Inl e
         | Inr (err, resp) \<Rightarrow>
             if truthy err then Inr (h, [err, JNull, resp])
             else Inr (h(self := this\<lparr>metadata := resp\<rparr>), [JNull, resp, resp]))"

text \<open>
  \<open>ServiceObject.prototype.setMetadata\<close> (lines 265-290); \<open>callback || util.noop\<close> only
  decides who receives the arguments.
\<close>

definition setMetadata_reqOpts :: "'r service_object \<Rightarrow> jsval \<Rightarrow> reqOpts" where
  "setMetadata_reqOpts this new_metadata =
     js_extend_deep \<lparr> uri = '''', http_method = Some ''PATCH'', json = new_metadata, headers = [],
                      scopedInterceptors = Absent \<rparr>
       (methodConfig_reqOpts (service_object.methods this ''setMetadata''))"

definition setMetadata :: "heap \<Rightarrow> ref \<Rightarrow> jsval \<Rightarrow> outcome" where
  "setMetadata h self new_metadata =
     (let this = h self;
          r = setMetadata_reqOpts this new_metadata
      in case ServiceObject_request this r of
           Inl e \<Rightarrow> Inl e
         | Inr (err, resp) \<Rightarrow>
             if truthy err then Inr (h, [err, resp])
             else Inr (h(self := this\<lparr>metadata := resp\<rparr>), [JNull, resp]))"

text \<open>
  The functions a subclass has put in place of \<open>create\<close> and \<open>getMetadata\<close>; they are
  called when the instance's slot is \<open>Redefined\<close>.
\<close>

record overrides =
  sub_create :: "heap \<Rightarrow> ref \<Rightarrow> jsval option \<Rightarrow> outcome"
  sub_getMetadata :: "heap \<Rightarrow> ref \<Rightarrow> outcome"

text \<open>
  \<open>is.empty(value)\<close> of the \<open>is\<close> package: an object without own properties, a string
  of length 0, and otherwise \<open>!value\<close>.  An instance always has own properties.
\<close>

fun is_empty :: "jsval \<Rightarrow> bool" where
  "is_empty (JObj fs) = (fs = [])"
| "is_empty (JStr s) = (s = [])"
| "is_empty (JRef r) = False"
| "is_empty v = (\<not> truthy v)"

text \<open>\<open>err.code === 404\<close>.\<close>

definition code_is_404 :: "jsval \<Rightarrow> bool" where
  "code_is_404 err = (get_prop err ''code'' = Inr (JNum 404))"

text \<open>
  \<open>ServiceObject.prototype.get\<close> (lines 191-223).  \<open>config_arg\<close> is \<open>None\<close> when the
  first argument is the callback.  Lines 194-199 leave \<open>config\<close> as follows.
\<close>

definition config_or_empty :: "jsval option \<Rightarrow> jsval" where
  "config_or_empty config_arg =
     (let config = (case config_arg of None \<Rightarrow> JObj [] | Some c \<Rightarrow> c)
      in if truthy config then config else JObj [])"

text \<open>Line 201, first conjunct: \<open>config.autoCreate\<close> is truthy.\<close>

definition autoCreate_requested :: "jsval \<Rightarrow> bool" where
  "autoCreate_requested config =
     truthy (case get_prop config ''autoCreate'' of Inr v \<Rightarrow> v | Inl e \<Rightarrow> JUndefined)"

text \<open>Line 202: \<open>delete config.autoCreate\<close>.\<close>

fun delete_autoCreate :: "jsval \<Rightarrow> jsval" where
  "delete_autoCreate (JObj fs) = JObj (delete_prop ''autoCreate'' fs)"
| "delete_autoCreate v = v"

text \<open>
  \<open>this.getMetadata\<close> and \<open>self.create\<close> are looked up on the instance; calling a
  removed method throws.  The callback given to \<open>getMetadata\<close> names two parameters,
  \<open>(err, metadata)\<close>, so \<open>metadata\<close> is the second of the arguments it receives.
\<close>

definition get :: "overrides \<Rightarrow> heap \<Rightarrow> ref \<Rightarrow> jsval option \<Rightarrow> outcome" where
  "get sub h self config_arg =
     (let this = h self;
          config0 = config_or_empty config_arg;
          autoCreate = (autoCreate_requested config0 \<and> own this ''create'' \<noteq> Removed);
          config = delete_autoCreate config0
      in case (case own this ''getMetadata'' of
                 Inherited \<Rightarrow> getMetadata h self
               | Redefined \<Rightarrow> sub_getMetadata sub h self
               | Removed \<Rightarrow> Inl TypeError) of
           Inl e \<Rightarrow> Inl e
         | Inr (h1, args) \<Rightarrow>
             (let err = arg 0 args; metadata = arg 1 args
              in if truthy err then
                   (if code_is_404 err \<and> autoCreate then
                      (let options = (if \<not> is_empty config then Some config else None)
                       in case own (h1 self) ''create'' of
                            Inherited \<Rightarrow> create h1 self options
                          | Redefined \<Rightarrow> sub_create sub h1 self options
                          | Removed \<Rightarrow> Inl TypeError)
                    else Inr (h1, [err, JNull, metadata]))
                 else Inr (h1, [JNull, JRef self, metadata])))"

section \<open>Stream Router (lib/common/stream-router.js)\<close>

text \<open>
  The file \<open>lib/common/stream-router.js\<close> is not among the sources; only its tests are.
  A page fetch answers with an error, or with a page of results and the query for the
  next page when there is one.  A run of the stream is the list of its events in order.
\<close>

datatype ('q, 'a, 'e) page = PageError 'e | Page "'a list" "'q option"

datatype ('q, 'a, 'e) event = Fetch 'q | Emit 'a | Error 'e | End

text \<open>
  Modelled from the spec: the result cap of \<open>runAsStream\<close> in the missing
  \<open>lib/common/stream-router.js\<close>.  The running counter of emitted items enforces
  \<open>maxResults\<close> when it is at least 0; \<open>-1\<close> means unbounded.
\<close>

definition capped :: "int \<Rightarrow> nat \<Rightarrow> bool" where
  "capped maxResults counter = (0 \<le> maxResults \<and> maxResults \<le> int counter)"

text \<open>
  Modelled from the spec: the consumer's cancellation in the missing \<open>runAsStream\<close>.
  \<open>endAfter = Some n\<close> is a consumer that ends the sequence once it has received \<open>n\<close>
  items; \<open>None\<close> is one that reads to the end.
\<close>

definition ended :: "nat option \<Rightarrow> nat \<Rightarrow> bool" where
  "ended endAfter counter = (case endAfter of None \<Rightarrow> False | Some n \<Rightarrow> n \<le> counter)"

text \<open>
  Modelled from the spec: the emission of one page by the missing \<open>runAsStream\<close>.  Each
  item of the page is emitted one at a time; emission halts, even in the middle of the
  page, once the counter has reached \<open>maxResults\<close> or the consumer has ended the
  sequence.  The result is the items emitted and the counter afterwards.
\<close>

fun emit_page :: "int \<Rightarrow> nat option \<Rightarrow> nat \<Rightarrow> 'a list \<Rightarrow> 'a list \<times> nat" where
  "emit_page maxResults endAfter counter [] = ([], counter)"
| "emit_page maxResults endAfter counter (x # xs) =
     (if capped maxResults counter \<or> ended endAfter counter then ([], counter)
      else (let (es, counter') = emit_page maxResults endAfter (Suc counter) xs
            in (x # es, counter')))"

text \<open>
  Modelled from the spec: \<open>runAsStream\<close> of the missing \<open>lib/common/stream-router.js\<close>,
  section 4.5.  A pull with no fetch outstanding invokes \<open>fetchPage\<close> on the current
  query.  An error ends the sequence.  Otherwise the page is emitted as above; then the
  sequence ends if the counter has reached \<open>maxResults\<close>, if the consumer has ended it, or
  if there is no next query, and the next page is fetched with the next query otherwise.
  The first argument bounds the number of page fetches that are followed, since a
  service may return pages for ever; a run cut short by it has no \<open>End\<close> or \<open>Error\<close>
  event.
\<close>

fun runAsStream ::
  "nat \<Rightarrow> ('q \<Rightarrow> ('q, 'a, 'e) page) \<Rightarrow> int \<Rightarrow> nat option \<Rightarrow> 'q \<Rightarrow> nat \<Rightarrow> ('q, 'a, 'e) event list" where
  "runAsStream 0 fetchPage maxResults endAfter query counter = []"
| "runAsStream (Suc fuel) fetchPage maxResults endAfter query counter =
     Fetch query #
     (case fetchPage query of
        PageError e \<Rightarrow> [Error e]
      | Page results nextQuery \<Rightarrow>
          (let (es, counter') = emit_page maxResults endAfter counter results
           in map Emit es @
              (if capped maxResults counter' \<or> ended endAfter counter' then [End]
               else (case nextQuery of
                       None \<Rightarrow> [End]
                     | Some q \<Rightarrow> runAsStream fuel fetchPage maxResults endAfter q counter'))))"

text \<open>The items a run emitted and the queries it fetched, in order.\<close>

fun emitted :: "('q, 'a, 'e) event list \<Rightarrow> 'a list" where
  "emitted [] = []"
| "emitted (Emit x # t) = x # emitted t"
| "emitted (ev # t) = emitted t"

fun fetched :: "('q, 'a, 'e) event list \<Rightarrow> 'q list" where
  "fetched [] = []"
| "fetched (Fetch q # t) = q # fetched t"
| "fetched (ev # t) = fetched t"

section \<open>Example instances\<close>

text \<open>Interceptors that set one header, and one interceptor without \<open>request\<close>.\<close>

definition set_header :: "string \<Rightarrow> string \<Rightarrow> interceptor" where
  "set_header k v = \<lparr> request = Some (\<lambda>r. r\<lparr>headers := set_prop k v (headers r)\<rparr>) \<rparr>"

definition example_store :: interceptor_store where
  "example_store i =
     (if i = 0 then \<lparr> request = None \<rparr>
      else if i = 1 then set_header ''X'' ''one''
      else if i = 2 then set_header ''X'' ''two''
      else if i = 3 then set_header ''Y'' ''object''
      else set_header ''Z'' ''call'')"

text \<open>
  A service with one global and one service-level interceptor, whose transport hands
  back the request options it is given.
\<close>

definition example_service :: "reqOpts service" where
  "example_service =
     (Service (\<lambda>r. r) \<lparr>service_config.baseUrl = ''http://x/'', projectIdRequired = JBool False\<rparr>
        \<lparr>service_options.globalInterceptors = Array [1], projectId = None\<rparr>)
     \<lparr> service.interceptors := [2] \<rparr>"

definition example_reqOpts :: reqOpts where
  "example_reqOpts = \<lparr> uri = ''b'', http_method = None, json = JUndefined, headers = [],
       scopedInterceptors = Absent \<rparr>"

text \<open>A dataset of that service and a table of the dataset, each with one interceptor.\<close>

definition dataset :: "(js_error + reqOpts) service_object" where
  "dataset = (ServiceObject \<lparr> service_object_config.baseUrl = ''/datasets'',
        createMethod = (\<lambda>i opts. []), id_str = ''d'', methods = None,
        parent = Service_request example_service example_store \<rparr> (\<lambda>n. Inherited))
     \<lparr> service_object.interceptors := [3] \<rparr>"

definition table :: "(js_error + reqOpts) service_object" where
  "table = (ServiceObject \<lparr> service_object_config.baseUrl = ''/tables'',
        createMethod = (\<lambda>i opts. []), id_str = ''t'', methods = None,
        parent = ServiceObject_request dataset \<rparr> (\<lambda>n. Inherited))
     \<lparr> service_object.interceptors := [4] \<rparr>"

text \<open>
  A bucket whose parent answers a \<open>PATCH\<close> with the body it was sent and every other
  request with an error of code 500 and a response body, and whose \<open>createMethod\<close>
  reports the instance at reference 1 as created.
\<close>

definition example_bucket :: "(js_error + jsval \<times> jsval) service_object" where
  "example_bucket = ServiceObject \<lparr> service_object_config.baseUrl = ''/b'',
        createMethod = (\<lambda>i opts. [JNull, JRef 1, JObj [(''kind'', JStr ''bucket'')]]),
        id_str = ''abc'', methods = None,
        parent = (\<lambda>r. if http_method r = Some ''PATCH'' then Inr (JNull, json r)
                       else Inr (JObj [(''code'', JNum 500)], JObj [(''error'', JStr ''backend'')])) \<rparr>
     (\<lambda>n. Inherited)"

definition example_heap :: heap where
  "example_heap r =
     (if r = 1 then example_bucket\<lparr>metadata := JObj [(''name'', JStr ''abc'')]\<rparr>
      else example_bucket)"

definition no_overrides :: overrides where
  "no_overrides = \<lparr> sub_create = (\<lambda>h self options. Inl TypeError),
                    sub_getMetadata = (\<lambda>h self. Inl TypeError) \<rparr>"

section \<open>Properties of the string helpers\<close>

lemma replace_tail_eq: "replace_tail s = rev (dropWhile is_slash (rev s))"
proof (induction s)
  case Nil
  show ?case by simp
next
  case (Cons c cs)
  show ?case
  proof (cases "list_all is_slash (c # cs)")
    case True
    then have "dropWhile is_slash (rev (c # cs)) = []"
      by (simp add: list_all_iff)
    with True show ?thesis by simp
  next
    case False
    then have "dropWhile is_slash (rev cs @ [c]) = dropWhile is_slash (rev cs) @ [c]
               \<or> (list_all is_slash cs \<and> \<not> is_slash c)"
      by (auto simp: dropWhile_append list_all_iff)
    then show ?thesis
    proof
      assume "dropWhile is_slash (rev cs @ [c]) = dropWhile is_slash (rev cs) @ [c]"
      with False Cons show ?thesis by simp
    next
      assume h: "list_all is_slash cs \<and> \<not> is_slash c"
      then have "dropWhile is_slash (rev cs) = []" by (simp add: list_all_iff)
      moreover from h have "replace_tail cs = []" by (cases cs) auto
      moreover from h have "dropWhile is_slash (rev cs @ [c]) = [c]"
        by (simp add: dropWhile_append list_all_iff)
      ultimately show ?thesis using False by simp
    qed
  qed
qed

lemma trimSlashes_strip: "trimSlashes s = strip_slashes s"
  by (simp add: trimSlashes_def strip_slashes_def replace_tail_eq)

lemma replace_slash_colon_eq: "replace_slash_colon s = drop_slash_before_colon s"
  by (induction s rule: replace_slash_colon.induct) (auto split: list.splits)


lemma exists_not_dropWhile:
  "(\<exists>x\<in>set (dropWhile P s). \<not> P x) = (\<exists>x\<in>set s. \<not> P x)"
  by (induction s) auto

lemma trim_nonempty_iff: "(trim s \<noteq> []) = (\<not> blank s)"
  by (simp add: trim_def blank_def list_all_iff exists_not_dropWhile)

lemma map_trimSlashes_Some: "map_trimSlashes (map Some cs) = Inr (map trimSlashes cs)"
  by (induction cs) auto

section \<open>Service.request: the URI\<close>

lemma Service_uri_spec:
  assumes "service.projectIdRequired this \<longrightarrow> service.projectId this = Some p"
  shows "Service_uri this r =
     Inr (spec_Service_uri (service.projectIdRequired this) (service.baseUrl this) p (uri r))"
proof (cases "service.projectIdRequired this")
  case True
  with assms have "uriComponents this r = map Some [service.baseUrl this, ''projects'', p, uri r]"
    by (simp add: uriComponents_def)
  then have "map_trimSlashes (uriComponents this r) =
      Inr (map trimSlashes [service.baseUrl this, ''projects'', p, uri r])"
    by (simp only: map_trimSlashes_Some)
  with True show ?thesis
    by (simp add: Service_uri_def spec_Service_uri_def trimSlashes_strip replace_slash_colon_eq)
next
  case False
  then have "uriComponents this r = map Some [service.baseUrl this, uri r]"
    by (simp add: uriComponents_def)
  then have "map_trimSlashes (uriComponents this r) =
      Inr (map trimSlashes [service.baseUrl this, uri r])"
    by (simp only: map_trimSlashes_Some)
  with False show ?thesis
    by (simp add: Service_uri_def spec_Service_uri_def trimSlashes_strip replace_slash_colon_eq)
qed

text \<open>
  C5.  When \<open>projectId\<close> is a string wherever it is needed, \<open>Service.request\<close> rewrites
  \<open>reqOpts.uri\<close> to the join with \<open>/\<close> of \<open>[baseUrl, 'projects', projectId, uri]\<close> if
  \<open>projectIdRequired\<close> and of \<open>[baseUrl, uri]\<close> otherwise, each segment stripped of
  leading and trailing slashes, with every \<open>/:\<close> of the joined string replaced by \<open>:\<close>;
  the interceptors and then the transport receive the request with that URI; and the
  constructor sets \<open>projectIdRequired\<close> to true unless the configured value is exactly
  \<open>false\<close>.
\<close>

theorem Service_request_rewrites_uri:
  assumes "service.projectIdRequired this \<longrightarrow> service.projectId this = Some p"
  shows "Service_uri this r =
           Inr (spec_Service_uri (service.projectIdRequired this) (service.baseUrl this) p (uri r))
         \<and> Service_reqOpts this st r =
           Inr ((run_interceptors st (combinedInterceptors this r)
                  (r\<lparr>uri := spec_Service_uri (service.projectIdRequired this)
                               (service.baseUrl this) p (uri r)\<rparr>))
                \<lparr>scopedInterceptors := Absent\<rparr>)
         \<and> service.projectIdRequired (Service transport config options)
             = (service_config.projectIdRequired config \<noteq> JBool False)"
  using Service_uri_spec[OF assms, of r]
  by (simp add: Service_reqOpts_def combinedInterceptors_def Service_def)

theorem Service_request_rewrites_uri_witness:
  "Service_uri
     (Service (\<lambda>r. r) \<lparr>service_config.baseUrl = ''http://x/'', projectIdRequired = JNum 0\<rparr>
        \<lparr>service_options.globalInterceptors = Absent, projectId = Some ''p''\<rparr>)
     \<lparr> uri = ''/items/:list'', http_method = None, json = JUndefined, headers = [],
       scopedInterceptors = Absent \<rparr>
   = Inr ''http://x/projects/p/items:list''"
  using Service_request_rewrites_uri[of
     "Service (\<lambda>r. r) \<lparr>service_config.baseUrl = ''http://x/'', projectIdRequired = JNum 0\<rparr>
        \<lparr>service_options.globalInterceptors = Absent, projectId = Some ''p''\<rparr>" "''p''"
     "\<lparr> uri = ''/items/:list'', http_method = None, json = JUndefined, headers = [],
        scopedInterceptors = Absent \<rparr>"]
  by (simp add: Service_def spec_Service_uri_def strip_slashes_def is_slash_def)

section \<open>Service.request: the call-scoped interceptors never reach the transport\<close>

text \<open>
  C4.  Whenever \<open>Service.request\<close> reaches the transport, the request options it passes
  to \<open>makeAuthenticatedRequest\<close> carry no call-scoped interceptor field; when it throws
  before that, the transport is not called.
\<close>

theorem Service_request_strips_scopedInterceptors:
  "(case Service_reqOpts this st r of
      Inl e \<Rightarrow> Service_request this st r = Inl e
    | Inr r' \<Rightarrow> Service_request this st r = Inr (makeAuthenticatedRequest this r')
               \<and> scopedInterceptors r' = Absent)"
  by (auto simp: Service_request_def Service_reqOpts_def Let_def split: sum.splits)

theorem Service_request_strips_scopedInterceptors_witness:
  "Service_request example_service example_store
       (example_reqOpts\<lparr>scopedInterceptors := Array [4]\<rparr>)
     = Inr (example_reqOpts\<lparr>uri := ''http://x/b'',
                             headers := [(''X'', ''two''), (''Z'', ''call'')]\<rparr>)
   \<and> scopedInterceptors example_reqOpts = Absent"
  using Service_request_strips_scopedInterceptors[of example_service example_store
          "example_reqOpts\<lparr>scopedInterceptors := Array [4]\<rparr>"]
  by (simp add: Service_request_def Service_reqOpts_def Service_uri_def uriComponents_def
      combinedInterceptors_def example_service_def Service_def example_store_def set_header_def
      example_reqOpts_def trimSlashes_def is_slash_def Let_def)

section \<open>ServiceObject.request\<close>

text \<open>
  C6.  \<open>ServiceObject.request\<close> calls \<open>parent.request\<close> with \<open>reqOpts.uri\<close> rewritten to
  the join with \<open>/\<close> of the non-blank segments among \<open>[baseUrl, id, reqOpts.uri]\<close>, each
  stripped of leading and trailing slashes, and with the instance's own interceptor list
  as the call-scoped interceptors; with \<open>baseUrl = ''\<close>, \<open>id = 'abc'\<close> and
  \<open>reqOpts.uri = ''\<close> the path is \<open>abc\<close>.
\<close>

theorem ServiceObject_request_joins_segments:
  "ServiceObject_request this r =
     service_object.parent this
       (r\<lparr> uri := join ''/'' (map strip_slashes
                      (filter (\<lambda>s. \<not> blank s)
                         [service_object.baseUrl this, service_object.id_str this, uri r])),
           scopedInterceptors := Array (service_object.interceptors this) \<rparr>)
   \<and> (service_object.baseUrl this = '''' \<and> service_object.id_str this = ''abc'' \<and> uri r = ''''
        \<longrightarrow> ServiceObject_uri this r = ''abc'')"
proof -
  have "trimSlashes = strip_slashes"
    by (rule ext) (rule trimSlashes_strip)
  then have u: "ServiceObject_uri this r =
      join ''/'' (map strip_slashes (filter (\<lambda>s. \<not> blank s)
         [service_object.baseUrl this, service_object.id_str this, uri r]))"
    by (simp add: ServiceObject_uri_def trim_nonempty_iff)
  have "service_object.baseUrl this = '''' \<and> service_object.id_str this = ''abc'' \<and> uri r = ''''
        \<longrightarrow> ServiceObject_uri this r = ''abc''"
    unfolding u by (simp add: blank_def is_space_def strip_slashes_def is_slash_def)
  with u show ?thesis by (simp add: ServiceObject_request_def)
qed

theorem ServiceObject_request_joins_segments_witness:
  "ServiceObject_request
     (ServiceObject \<lparr> service_object_config.baseUrl = '''',
        createMethod = (\<lambda>i opts. []), id_str = ''abc'', methods = None, parent = (\<lambda>r. r) \<rparr>
        (\<lambda>n. Inherited))
     \<lparr> uri = '''', http_method = None, json = JUndefined, headers = [], scopedInterceptors = Single 7 \<rparr>
   = \<lparr> uri = ''abc'', http_method = None, json = JUndefined, headers = [],
       scopedInterceptors = Array [] \<rparr>"
  using ServiceObject_request_joins_segments[of
     "ServiceObject \<lparr> service_object_config.baseUrl = '''',
        createMethod = (\<lambda>i opts. []), id_str = ''abc'', methods = None, parent = (\<lambda>r. r) \<rparr>
        (\<lambda>n. Inherited)"
     "\<lparr> uri = '''', http_method = None, json = JUndefined, headers = [],
        scopedInterceptors = Single 7 \<rparr>"]
  by (simp add: ServiceObject_def blank_def is_space_def strip_slashes_def is_slash_def)

section \<open>ServiceObject: method suppression\<close>

lemma fold_remove:
  "fold (\<lambda>methodName tbl. tbl(methodName := Removed)) names self n =
     (if n \<in> set names then Removed else self n)"
  by (induction names arbitrary: self) auto

lemma own_ServiceObject:
  "service_object_config.methods config = Some m \<Longrightarrow>
   own (ServiceObject config self) n =
     (if n \<in> set allMethodNames \<and> n \<noteq> ''request'' \<and> self n = Inherited \<and> \<not> entry_truthy (m n)
      then Removed else self n)"
  by (simp add: ServiceObject_def fold_remove)

text \<open>
  C7.  For a ServiceObject constructed with a \<open>methods\<close> map: every shared method name
  other than \<open>request\<close> that the instance inherits and that has no truthy entry in the
  map is removed; \<open>request\<close> is kept as it was; a method the subclass redefined is left
  untouched; and a method with a truthy entry is left as it was.
\<close>

theorem ServiceObject_method_suppression:
  assumes "service_object_config.methods config = Some m"
  shows "(\<forall>n \<in> set allMethodNames.
            n \<noteq> ''request'' \<and> self n = Inherited \<and> \<not> entry_truthy (m n)
            \<longrightarrow> own (ServiceObject config self) n = Removed)
       \<and> own (ServiceObject config self) ''request'' = self ''request''
       \<and> (\<forall>n. self n \<noteq> Inherited \<longrightarrow> own (ServiceObject config self) n = self n)
       \<and> (\<forall>n. entry_truthy (m n) \<longrightarrow> own (ServiceObject config self) n = self n)"
  by (simp add: own_ServiceObject[OF assms])

theorem ServiceObject_method_suppression_witness:
  "(let this = ServiceObject
        \<lparr> service_object_config.baseUrl = ''/b'', createMethod = (\<lambda>i opts. []), id_str = ''abc'',
          methods = Some (\<lambda>n. if n = ''getMetadata'' then Some (Flag True) else None),
          parent = (\<lambda>r. r) \<rparr>
        (\<lambda>n. if n = ''exists'' then Redefined else Inherited)
    in own this ''delete'' = Removed \<and> own this ''setMetadata'' = Removed
     \<and> own this ''getMetadata'' = Inherited \<and> own this ''request'' = Inherited
     \<and> own this ''exists'' = Redefined)"
  using ServiceObject_method_suppression[of
        "\<lparr> service_object_config.baseUrl = ''/b'', createMethod = (\<lambda>i opts. []), id_str = ''abc'',
          methods = Some (\<lambda>n. if n = ''getMetadata'' then Some (Flag True) else None),
          parent = (\<lambda>r. r) \<rparr>"
        "\<lambda>n. if n = ''getMetadata'' then Some (Flag True) else None"
        "\<lambda>n. if n = ''exists'' then Redefined else Inherited"]
  by (simp add: allMethodNames_def)


section \<open>Service.request: running the interceptor chain\<close>

lemma run_interceptors_fold:
  "\<forall>i \<in> set chain. request (st i) \<noteq> None \<Longrightarrow>
   run_interceptors st chain r = fold (\<lambda>i acc. the (request (st i)) acc) chain r"
  by (induction chain arbitrary: r) auto

lemma Service_uri_cong: "uri r = uri r' \<Longrightarrow> Service_uri this r = Service_uri this r'"
  by (simp add: Service_uri_def uriComponents_def)

lemma ServiceObject_uri_cong:
  "uri r = uri r' \<Longrightarrow> ServiceObject_uri this r = ServiceObject_uri this r'"
  by (simp add: ServiceObject_uri_def)

lemma Service_reqOpts_chain:
  "Service_uri this r = Inr u \<Longrightarrow>
   Service_reqOpts this st r =
     Inr ((run_interceptors st
             (service.globalInterceptors this @ service.interceptors this
                @ arrify (scopedInterceptors r))
             (r\<lparr>uri := u\<rparr>))
          \<lparr>scopedInterceptors := Absent\<rparr>)"
  by (simp add: Service_reqOpts_def combinedInterceptors_def)

text \<open>
  C1.  What the code does where the claim fails.  The chain is applied as a left-to-right
  fold only up to the first interceptor without a \<open>request\<close> capability: the loop of
  lines 98-100 ends there, so that interceptor is not skipped but ends the chain, and no
  later interceptor is applied.
\<close>

theorem run_interceptors_stops_at_missing_request:
  assumes "\<forall>i \<in> set before. request (st i) \<noteq> None" and "request (st j) = None"
  shows "run_interceptors st (before @ j # later) r
           = fold (\<lambda>i acc. the (request (st i)) acc) before r"
  using assms by (induction before arbitrary: r) auto

theorem run_interceptors_stops_at_missing_request_witness:
  "Service_request (example_service\<lparr>service.interceptors := [2, 0, 3]\<rparr>) example_store
       example_reqOpts
     = Inr (example_reqOpts\<lparr>uri := ''http://x/b'', headers := [(''X'', ''two'')]\<rparr>)
   \<and> run_interceptors example_store [1, 2, 0, 3] example_reqOpts
     = example_reqOpts\<lparr>headers := [(''X'', ''two'')]\<rparr>"
proof -
  have a: "\<forall>i \<in> set [1, 2]. request (example_store i) \<noteq> None"
    by (simp add: example_store_def set_header_def)
  have b: "request (example_store 0) = None"
    by (simp add: example_store_def)
  show ?thesis
    using run_interceptors_stops_at_missing_request[OF a b, of "[3]" example_reqOpts]
    by (simp add: Service_request_def Service_reqOpts_def Service_uri_def uriComponents_def
        combinedInterceptors_def example_service_def Service_def example_store_def set_header_def
        example_reqOpts_def trimSlashes_def is_slash_def Let_def)
qed

text \<open>
  C3.  What the code does where the claim fails.  For a request that a ServiceObject
  \<open>child\<close> delegates to a ServiceObject \<open>obj\<close> whose parent is a Service, the chain run
  is the global list, then the service's list, then the list of \<open>obj\<close>: line 316
  overwrites the call-scoped list that arrives with the request, so the interceptors of
  \<open>child\<close> are never applied.
\<close>

theorem nested_ServiceObject_interceptors_are_dropped:
  assumes pc: "service_object.parent child = ServiceObject_request obj"
      and po: "service_object.parent obj = Service_request svc st"
      and u: "Service_uri svc
                (r\<lparr>uri := ServiceObject_uri obj (r\<lparr>uri := ServiceObject_uri child r\<rparr>)\<rparr>) = Inr u"
  shows "ServiceObject_request child r =
           Inr (makeAuthenticatedRequest svc
                 ((run_interceptors st
                     (service.globalInterceptors svc @ service.interceptors svc
                        @ service_object.interceptors obj)
                     (r\<lparr>uri := u, scopedInterceptors := Array (service_object.interceptors obj)\<rparr>))
                  \<lparr>scopedInterceptors := Absent\<rparr>))"
proof -
  define r1 where "r1 = r\<lparr>uri := ServiceObject_uri child r,
                           scopedInterceptors := Array (service_object.interceptors child)\<rparr>"
  define r2 where "r2 = r1\<lparr>uri := ServiceObject_uri obj r1,
                            scopedInterceptors := Array (service_object.interceptors obj)\<rparr>"
  have s1: "ServiceObject_request child r = ServiceObject_request obj r1"
    by (simp add: ServiceObject_request_def pc r1_def)
  have s2: "ServiceObject_request obj r1 = Service_request svc st r2"
    by (simp add: ServiceObject_request_def po r2_def)
  have "ServiceObject_uri obj r1 = ServiceObject_uri obj (r\<lparr>uri := ServiceObject_uri child r\<rparr>)"
    by (rule ServiceObject_uri_cong) (simp add: r1_def)
  then have "Service_uri svc r2 = Inr u"
    using u Service_uri_cong[of r2
        "r\<lparr>uri := ServiceObject_uri obj (r\<lparr>uri := ServiceObject_uri child r\<rparr>)\<rparr>" svc]
    by (simp add: r2_def)
  then have "Service_reqOpts svc st r2 =
     Inr ((run_interceptors st
             (service.globalInterceptors svc @ service.interceptors svc
                @ arrify (scopedInterceptors r2))
             (r2\<lparr>uri := u\<rparr>))
          \<lparr>scopedInterceptors := Absent\<rparr>)"
    by (rule Service_reqOpts_chain)
  moreover have "r2\<lparr>uri := u\<rparr> =
      r\<lparr>uri := u, scopedInterceptors := Array (service_object.interceptors obj)\<rparr>"
    by (simp add: r2_def r1_def)
  moreover have "arrify (scopedInterceptors r2) = service_object.interceptors obj"
    by (simp add: r2_def)
  ultimately show ?thesis
    using s1 s2 by (simp add: Service_request_def)
qed

theorem nested_ServiceObject_interceptors_are_dropped_witness:
  "ServiceObject_request table example_reqOpts
     = Inr (example_reqOpts\<lparr>uri := ''http://x/datasets/d/tables/t/b'',
                             headers := [(''X'', ''two''), (''Y'', ''object'')]\<rparr>)
   \<and> ServiceObject_request dataset (example_reqOpts\<lparr>scopedInterceptors := Array [4]\<rparr>)
     = Inr (example_reqOpts\<lparr>uri := ''http://x/datasets/d/b'',
                             headers := [(''X'', ''two''), (''Y'', ''object'')]\<rparr>)"
proof -
  have p1: "service_object.parent table = ServiceObject_request dataset"
    by (simp add: table_def ServiceObject_def)
  have p2: "service_object.parent dataset = Service_request example_service example_store"
    by (simp add: dataset_def ServiceObject_def)
  have u: "Service_uri example_service
      (example_reqOpts\<lparr>uri := ServiceObject_uri dataset
          (example_reqOpts\<lparr>uri := ServiceObject_uri table example_reqOpts\<rparr>)\<rparr>)
      = Inr ''http://x/datasets/d/tables/t/b''"
    by (simp add: Service_uri_def uriComponents_def example_service_def Service_def
        ServiceObject_uri_def dataset_def table_def ServiceObject_def example_reqOpts_def
        trimSlashes_def trim_def is_slash_def is_space_def)
  show ?thesis
    using nested_ServiceObject_interceptors_are_dropped[OF p1 p2 u]
    by (simp add: ServiceObject_request_def Service_request_def Service_reqOpts_def
        Service_uri_def uriComponents_def combinedInterceptors_def
        example_service_def Service_def ServiceObject_uri_def dataset_def table_def
        ServiceObject_def example_reqOpts_def example_store_def set_header_def
        trimSlashes_def trim_def is_slash_def is_space_def Let_def)
qed

section \<open>ServiceObject.create\<close>

lemma two_args: "2 \<le> length args \<Longrightarrow> \<exists>a b rest. args = a # b # rest"
  by (cases args; simp; rename_tac a as; case_tac as; simp)

lemma arg_set_arg1:
  assumes "2 \<le> length args"
  shows "arg i (set_arg1 v args) = (if i = 1 then v else arg i args)"
proof -
  from two_args[OF assms] obtain a b rest where "args = a # b # rest" by blast
  then show ?thesis by (auto simp: arg_def nth_Cons split: nat.splits)
qed

lemma length_set_arg1:
  assumes "2 \<le> length args"
  shows "length (set_arg1 v args) = length args"
proof -
  from two_args[OF assms] obtain a b rest where "args = a # b # rest" by blast
  then show ?thesis by simp
qed

lemma metadata_of_defined: "metadata_of h (arg 1 args) = Inr m \<Longrightarrow> 2 \<le> length args"
  by (cases "1 < length args") (auto simp: arg_def)

text \<open>
  C8.  When \<open>createMethod\<close> reports success, that is, it gives its callback a falsy
  error and an instance whose \<open>metadata\<close> can be read, \<open>create\<close> calls the callback
  with the reference of the instance \<open>create\<close> was invoked on as second argument, that
  instance's \<open>metadata\<close> is now the created instance's metadata, every other argument is
  passed through unchanged, and no other instance of the store is touched.
\<close>

theorem create_hands_back_original_instance:
  assumes cm: "service_object.createMethod (h self) (service_object.id_str (h self))
                 (options_argument options) = args"
      and ok: "\<not> truthy (arg 0 args)"
      and inst: "metadata_of h (arg 1 args) = Inr m"
  shows "\<exists>h' args'. create h self options = Inr (h', args')
           \<and> arg 1 args' = JRef self
           \<and> metadata (h' self) = m
           \<and> length args' = length args
           \<and> (\<forall>i. i \<noteq> 1 \<longrightarrow> arg i args' = arg i args)
           \<and> (\<forall>r. r \<noteq> self \<longrightarrow> h' r = h r)"
proof -
  have len: "2 \<le> length args" using inst by (rule metadata_of_defined)
  have "create h self options =
          Inr (h(self := (h self)\<lparr>metadata := m\<rparr>), set_arg1 (JRef self) args)"
    using cm ok inst by (simp add: create_def Let_def)
  then show ?thesis
    using len by (simp add: arg_set_arg1 length_set_arg1)
qed

theorem create_hands_back_original_instance_witness:
  "map_sum id (\<lambda>(h', args'). (args', metadata (h' 0), metadata (h' 1)))
       (create example_heap 0 None)
     = Inr ([JNull, JRef 0, JObj [(''kind'', JStr ''bucket'')]],
            JObj [(''name'', JStr ''abc'')], JObj [(''name'', JStr ''abc'')])"
proof -
  have cm: "service_object.createMethod (example_heap 0) (service_object.id_str (example_heap 0))
      (options_argument None) = [JNull, JRef 1, JObj [(''kind'', JStr ''bucket'')]]"
    by (simp add: example_heap_def example_bucket_def ServiceObject_def)
  have ok: "\<not> truthy (arg 0 [JNull, JRef 1, JObj [(''kind'', JStr ''bucket'')]])"
    by (simp add: arg_def)
  have inst: "metadata_of example_heap (arg 1 [JNull, JRef 1, JObj [(''kind'', JStr ''bucket'')]])
      = Inr (JObj [(''name'', JStr ''abc'')])"
    by (simp add: arg_def example_heap_def)
  show ?thesis
    using create_hands_back_original_instance[OF cm ok inst]
    by (simp add: create_def example_heap_def example_bucket_def ServiceObject_def arg_def
        options_argument_def Let_def)
qed

section \<open>ServiceObject.getMetadata, setMetadata and get\<close>

text \<open>
  C10.  When the request of \<open>getMetadata\<close> or \<open>setMetadata\<close> completes with an error, the
  store, and with it the cached \<open>metadata\<close>, is left unchanged; when it completes without
  one, the cached \<open>metadata\<close> of the instance becomes the response body, which is also
  what the callback is given.
\<close>

theorem metadata_cache_follows_response:
  "(ServiceObject_request (h self) (getMetadata_reqOpts (h self)) = Inr (err, resp) \<longrightarrow>
      (if truthy err then getMetadata h self = Inr (h, [err, JNull, resp])
       else getMetadata h self =
              Inr (h(self := (h self)\<lparr>metadata := resp\<rparr>), [JNull, resp, resp])))
   \<and> (ServiceObject_request (h self) (setMetadata_reqOpts (h self) md) = Inr (err', resp') \<longrightarrow>
      (if truthy err' then setMetadata h self md = Inr (h, [err', resp'])
       else setMetadata h self md =
              Inr (h(self := (h self)\<lparr>metadata := resp'\<rparr>), [JNull, resp'])))"
  by (simp add: getMetadata_def setMetadata_def Let_def)

theorem metadata_cache_follows_response_witness:
  "map_sum id (\<lambda>(h', args). (metadata (h' 0), args)) (getMetadata example_heap 0)
     = Inr (JObj [], [JObj [(''code'', JNum 500)], JNull, JObj [(''error'', JStr ''backend'')]])
   \<and> map_sum id (\<lambda>(h', args). (metadata (h' 0), args))
       (setMetadata example_heap 0 (JObj [(''a'', JNum 1)]))
     = Inr (JObj [(''a'', JNum 1)], [JNull, JObj [(''a'', JNum 1)]])"
proof -
  have g: "ServiceObject_request (example_heap 0) (getMetadata_reqOpts (example_heap 0))
      = Inr (JObj [(''code'', JNum 500)], JObj [(''error'', JStr ''backend'')])"
    by (simp add: example_heap_def example_bucket_def ServiceObject_def
        ServiceObject_request_def getMetadata_reqOpts_def)
  have s: "ServiceObject_request (example_heap 0)
        (setMetadata_reqOpts (example_heap 0) (JObj [(''a'', JNum 1)]))
      = Inr (JNull, JObj [(''a'', JNum 1)])"
    by (simp add: example_heap_def example_bucket_def ServiceObject_def
        ServiceObject_request_def setMetadata_reqOpts_def)
  show ?thesis
    using metadata_cache_follows_response[of example_heap 0
        "JObj [(''code'', JNum 500)]" "JObj [(''error'', JStr ''backend'')]"
        "JObj [(''a'', JNum 1)]" JNull "JObj [(''a'', JNum 1)]"] g s
    by (simp add: example_heap_def example_bucket_def ServiceObject_def)
qed

text \<open>
  C2.  What the code does where the claim fails.  When the request of the inherited
  \<open>getMetadata\<close> fails with an error that auto-creation does not handle, \<open>get\<close> calls its
  callback with the error, \<open>null\<close> and \<open>null\<close> again: the third argument is the second
  argument \<open>getMetadata\<close> gave its callback, which is \<open>null\<close> on an error, and not the
  response of the failed request.
\<close>

theorem get_passes_null_as_third_argument:
  assumes inh: "own (h self) ''getMetadata'' = Inherited"
      and req: "ServiceObject_request (h self) (getMetadata_reqOpts (h self)) = Inr (err, resp)"
      and err: "truthy err"
      and unhandled: "\<not> code_is_404 err
                      \<or> \<not> autoCreate_requested (config_or_empty config_arg)
                      \<or> own (h self) ''create'' = Removed"
  shows "get sub h self config_arg = Inr (h, [err, JNull, JNull])"
proof -
  have "getMetadata h self = Inr (h, [err, JNull, resp])"
    using req err by (simp add: getMetadata_def Let_def)
  then show ?thesis
    using inh err unhandled by (auto simp: get_def Let_def arg_def)
qed

theorem get_passes_null_as_third_argument_witness:
  "map_sum id snd (getMetadata example_heap 0)
     = Inr [JObj [(''code'', JNum 500)], JNull, JObj [(''error'', JStr ''backend'')]]
   \<and> map_sum id snd (get no_overrides example_heap 0 None)
     = Inr [JObj [(''code'', JNum 500)], JNull, JNull]"
proof -
  have inh: "own (example_heap 0) ''getMetadata'' = Inherited"
    by (simp add: example_heap_def example_bucket_def ServiceObject_def)
  have req: "ServiceObject_request (example_heap 0) (getMetadata_reqOpts (example_heap 0))
       = Inr (JObj [(''code'', JNum 500)], JObj [(''error'', JStr ''backend'')])"
    by (simp add: example_heap_def example_bucket_def ServiceObject_def
        ServiceObject_request_def getMetadata_reqOpts_def)
  have err: "truthy (JObj [(''code'', JNum 500)])" by simp
  have unhandled: "\<not> code_is_404 (JObj [(''code'', JNum 500)])
       \<or> \<not> autoCreate_requested (config_or_empty None)
       \<or> own (example_heap 0) ''create'' = Removed"
    by (simp add: code_is_404_def)
  show ?thesis
    using get_passes_null_as_third_argument[of example_heap 0, OF inh req err unhandled,
            of no_overrides] req
    by (simp add: getMetadata_def Let_def)
qed

section \<open>Stream Router: the result cap\<close>

lemma emitted_append: "emitted (s @ t) = emitted s @ emitted t"
  by (induction s rule: emitted.induct) auto

lemma emitted_map_Emit: "emitted (map Emit es) = es"
  by (induction es) auto

lemma emit_page_counter:
  "emit_page m ea c results = (es, c') \<Longrightarrow> c' = c + length es"
proof (induction results arbitrary: c es c')
  case Nil
  then show ?case by simp
next
  case (Cons x xs)
  show ?case
  proof (cases "capped m c \<or> ended ea c")
    case True
    with Cons.prems show ?thesis by simp
  next
    case False
    then obtain es' where e: "emit_page m ea (Suc c) xs = (es', c')" and es: "es = x # es'"
      using Cons.prems by (auto split: prod.splits)
    from Cons.IH[OF e] es show ?thesis by simp
  qed
qed

text \<open>An item is emitted only while the counter is below the cap.\<close>

lemma emit_page_below_cap:
  "emit_page m ea c results = (es, c') \<Longrightarrow> 0 \<le> m \<Longrightarrow> k < length es \<Longrightarrow> int (c + k) < m"
proof (induction results arbitrary: c es c' k)
  case Nil
  then show ?case by simp
next
  case (Cons x xs)
  show ?case
  proof (cases "capped m c \<or> ended ea c")
    case True
    with Cons.prems show ?thesis by simp
  next
    case False
    then obtain es' where e: "emit_page m ea (Suc c) xs = (es', c')" and es: "es = x # es'"
      using Cons.prems(1) by (auto split: prod.splits)
    show ?thesis
    proof (cases k)
      case 0
      with False Cons.prems(2) show ?thesis by (simp add: capped_def)
    next
      case (Suc k')
      with Cons.prems(3) es have "k' < length es'" by simp
      from Cons.IH[OF e Cons.prems(2) this] Suc show ?thesis by simp
    qed
  qed
qed

lemma runAsStream_quiet_after_cap:
  assumes "0 \<le> m"
  shows "runAsStream fuel fetchPage m ea q c = pre @ post \<Longrightarrow> pre \<noteq> [] \<Longrightarrow>
         int (c + length (emitted pre)) = m \<Longrightarrow> emitted post = [] \<and> fetched post = []"
proof (induction fuel arbitrary: q c pre post)
  case 0
  then show ?case by simp
next
  case (Suc fuel)
  from Suc.prems(2) obtain ev pre' where pre: "pre = ev # pre'" by (cases pre) auto
  show ?case
  proof (cases "fetchPage q")
    case (PageError e)
    with Suc.prems(1) pre have "pre' @ post = [Error e]" by simp
    then have "post = [] \<or> post = [Error e]"
      by (cases pre') auto
    then show ?thesis by auto
  next
    case (Page results nextQuery)
    obtain es c' where ep: "emit_page m ea c results = (es, c')"
      by (cases "emit_page m ea c results")
    have c': "c' = c + length es" using ep by (rule emit_page_counter)
    define rest where "rest =
       (if capped m c' \<or> ended ea c' then [End]
        else (case nextQuery of None \<Rightarrow> [End]
              | Some q' \<Rightarrow> runAsStream fuel fetchPage m ea q' c'))"
    have ev: "ev = Fetch q" and split: "pre' @ post = map Emit es @ rest"
      using Suc.prems(1) pre Page ep by (simp_all add: rest_def)
    have cnt: "int (c + length (emitted pre')) = m"
      using Suc.prems(3) pre ev by simp
    from split obtain us where
      "(pre' @ us = map Emit es \<and> post = us @ rest) \<or>
       (pre' = map Emit es @ us \<and> us @ post = rest)"
      by (auto simp: append_eq_append_conv2)
    then show ?thesis
    proof
      assume a: "pre' @ us = map Emit es \<and> post = us @ rest"
      then have p: "pre' = map Emit (take (length pre') es)"
        and us: "us = map Emit (drop (length pre') es)"
        and le: "length pre' \<le> length es"
        by (metis append_eq_conv_conj take_map, metis append_eq_conv_conj drop_map,
            metis length_append length_map le_add1)
      have k: "length (emitted pre') = length pre'"
        using p le by (metis emitted_map_Emit length_take min.absorb2)
      have "\<not> length pre' < length es"
        using emit_page_below_cap[OF ep assms, of "length pre'"] cnt k by auto
      with le have full: "length pre' = length es" by simp
      then have "us = []" using us by simp
      moreover have "capped m c'" using cnt k full c' assms by (simp add: capped_def)
      ultimately show ?thesis using a by (simp add: rest_def)
    next
      assume b: "pre' = map Emit es @ us \<and> us @ post = rest"
      show ?thesis
      proof (cases "capped m c' \<or> ended ea c' \<or> nextQuery = None")
        case True
        then have "rest = [End]" by (auto simp: rest_def)
        with b have "post = [] \<or> post = [End]" by (cases us) auto
        then show ?thesis by auto
      next
        case False
        then obtain q' where r: "rest = runAsStream fuel fetchPage m ea q' c'"
          by (auto simp: rest_def)
        show ?thesis
        proof (cases "us = []")
          case True
          with b have "length (emitted pre') = length es" by (simp add: emitted_map_Emit)
          with cnt c' assms have "capped m c'" by (simp add: capped_def)
          with False show ?thesis by simp
        next
          case ne: False
          have "int (c' + length (emitted us)) = m"
            using cnt b c' by (simp add: emitted_append emitted_map_Emit)
          from Suc.IH[OF _ ne this, of q' post] b r show ?thesis by simp
        qed
      qed
    qed
  qed
qed

lemma runAsStream_emitted_le:
  assumes "0 \<le> m"
  shows "int c \<le> m \<Longrightarrow>
         int (c + length (emitted (runAsStream fuel fetchPage m ea q c))) \<le> m"
proof (induction fuel arbitrary: q c)
  case 0
  then show ?case by simp
next
  case (Suc fuel)
  show ?case
  proof (cases "fetchPage q")
    case (PageError e)
    with Suc.prems show ?thesis by simp
  next
    case (Page results nextQuery)
    obtain es c' where ep: "emit_page m ea c results = (es, c')"
      by (cases "emit_page m ea c results")
    have c': "c' = c + length es" using ep by (rule emit_page_counter)
    have le: "int c' \<le> m"
    proof (cases es rule: rev_cases)
      case Nil
      with c' Suc.prems show ?thesis by simp
    next
      case (snoc ys y)
      then have "length ys < length es" by simp
      from emit_page_below_cap[OF ep assms this] snoc c' show ?thesis by simp
    qed
    show ?thesis
    proof (cases "capped m c' \<or> ended ea c' \<or> nextQuery = None")
      case True
      then show ?thesis using Page ep le c'
        by (auto simp: emitted_append emitted_map_Emit)
    next
      case False
      then obtain q' where "nextQuery = Some q'" by auto
      with False Page ep Suc.IH[OF le, of q'] c' show ?thesis
        by (simp add: emitted_append emitted_map_Emit)
    qed
  qed
qed

text \<open>
  C9.  For a stream with \<open>maxResults \<ge> 0\<close>, started with the counter at 0 and followed for
  any number of page fetches: it never emits more than \<open>maxResults\<close> items; and once it
  has started and the items emitted so far number \<open>maxResults\<close>, nothing more is emitted
  and no page is fetched, whatever next query the last page carried.  With
  \<open>maxResults = 1\<close>, a consumer that reads on and a first page of three items, the run
  is one fetch, one item and the end.
\<close>

theorem runAsStream_respects_maxResults:
  assumes "0 \<le> maxResults"
  shows "int (length (emitted (runAsStream fuel fetchPage maxResults endAfter query 0)))
           \<le> maxResults
       \<and> (\<forall>pre post.
            runAsStream fuel fetchPage maxResults endAfter query 0 = pre @ post
            \<and> pre \<noteq> [] \<and> int (length (emitted pre)) = maxResults
            \<longrightarrow> emitted post = [] \<and> fetched post = [])
       \<and> (fetchPage query = Page [a, b, c] nextQuery
            \<longrightarrow> runAsStream (Suc fuel) fetchPage 1 None query 0
                  = [Fetch query, Emit a, End])"
proof -
  have "int (length (emitted (runAsStream fuel fetchPage maxResults endAfter query 0)))
           \<le> maxResults"
    using runAsStream_emitted_le[OF assms, of 0 fuel fetchPage endAfter query] assms by simp
  moreover have "\<forall>pre post.
            runAsStream fuel fetchPage maxResults endAfter query 0 = pre @ post
            \<and> pre \<noteq> [] \<and> int (length (emitted pre)) = maxResults
            \<longrightarrow> emitted post = [] \<and> fetched post = []"
    using runAsStream_quiet_after_cap[OF assms, of fuel fetchPage endAfter query 0] by simp
  moreover have "fetchPage query = Page [a, b, c] nextQuery
            \<longrightarrow> runAsStream (Suc fuel) fetchPage 1 None query 0
                  = [Fetch query, Emit a, End]"
    by (simp add: capped_def ended_def)
  ultimately show ?thesis by blast
qed

theorem runAsStream_respects_maxResults_witness:
  "runAsStream 5 (\<lambda>q. Page [q, q + 10, q + 20] (Some (Suc q))) 1 None (0::nat) 0
     = [Fetch 0, Emit 0, End]
   \<and> runAsStream 5 (\<lambda>q. Page [q, q + 10, q + 20] (Some (Suc q))) 4 None (0::nat) 0
     = [Fetch 0, Emit 0, Emit 10, Emit 20, Fetch 1, Emit 1, End]"
proof -
  have h1: "(0::int) \<le> 1" by simp
  have h4: "(0::int) \<le> 4" by simp
  show ?thesis
    using runAsStream_respects_maxResults[OF h1, of 4
            "\<lambda>q. Page [q, q + 10, q + 20] (Some (Suc q))" None "0::nat" 0 10 20 "Some 1"]
          runAsStream_respects_maxResults[OF h4, of 5
            "\<lambda>q. Page [q, q + 10, q + 20] (Some (Suc q))" None "0::nat" 0 10 20 "Some 1"]
    by (simp add: numeral_eq_Suc capped_def ended_def)
qed

end
